theory Spec2Isabelle
  imports Main "HOL-Library.Word"
begin

section \<open>Strings, bytes and the hexadecimal encoding\<close>

text \<open>
  A JavaScript string is modelled as a \<open>string\<close>, one \<open>char\<close> for one code unit (of
  the 256 a \<open>char\<close> can hold), and a \<open>Buffer\<close> as a list of bytes. The constants are
  those of \<open>src/lib/crypto.js\<close>.
\<close>

type_synonym byte = "8 word"

definition TAG_DELIMITER :: char where
  "TAG_DELIMITER = CHR '':''"

definition BYTE_COUNT_FOR_IV :: nat where
  "BYTE_COUNT_FOR_IV = 6"

definition KEY_NAME :: string where
  "KEY_NAME = ''sfdx''"

definition ACCOUNT :: string where
  "ACCOUNT = ''local''"

text \<open>
  \<open>buf.toString('hex')\<close>: two lower-case digits for each byte, high nibble first.
\<close>

definition hex_digit :: "nat \<Rightarrow> char" where
  "hex_digit n = (if n < 10 then char_of (48 + n) else char_of (87 + n))"

fun toHex :: "byte list \<Rightarrow> string" where
  "toHex [] = []"
| "toHex (b # bs) = hex_digit (unat b div 16) # hex_digit (unat b mod 16) # toHex bs"

text \<open>
  \<open>Buffer.from(s, 'hex')\<close>: digits of either case are read in pairs, and decoding stops
  at the first pair that is not two hexadecimal digits (a trailing single character is
  dropped).
\<close>

definition hex_value :: "char \<Rightarrow> nat option" where
  "hex_value c =
     (let n = (of_char c :: nat) in
      if 48 \<le> n \<and> n \<le> 57 then Some (n - 48)
      else if 97 \<le> n \<and> n \<le> 102 then Some (n - 87)
      else if 65 \<le> n \<and> n \<le> 70 then Some (n - 55)
      else None)"

fun fromHex :: "string \<Rightarrow> byte list" where
  "fromHex (a # b # cs) =
     (case hex_value a of
        None \<Rightarrow> []
      | Some h \<Rightarrow> (case hex_value b of
            None \<Rightarrow> []
          | Some l \<Rightarrow> of_nat (16 * h + l) # fromHex cs))"
| "fromHex [a] = []"
| "fromHex [] = []"

text \<open>
  \<open>s.split(d)\<close> for a one-character separator: the segments between the occurrences of
  \<open>d\<close>, so one segment more than there are separators (\<open>''.split(':')\<close> is \<open>['']\<close>).
\<close>

fun split_js :: "char \<Rightarrow> string \<Rightarrow> string list" where
  "split_js d [] = [] # []"
| "split_js d (c # cs) =
     (if c = d then [] # split_js d cs
      else (case split_js d cs of
              [] \<Rightarrow> [c] # []
            | t # ts \<Rightarrow> (c # t) # ts))"

text \<open>
  \<open>s.substring(a, b)\<close>: both indices are clamped to the length and swapped when
  \<open>a > b\<close>.
\<close>

definition substring :: "nat \<Rightarrow> nat \<Rightarrow> string \<Rightarrow> string" where
  "substring a b s =
     (let a' = min a (length s); b' = min b (length s);
          lo = min a' b'; hi = max a' b'
      in take (hi - lo) (drop lo s))"

text \<open>
  \<open>crypto.randomBytes(n)\<close> draws \<open>n\<close> bytes from the system's entropy, here an
  infinite sequence of bytes of which the first \<open>n\<close> are consumed.
\<close>

definition randomBytes :: "nat \<Rightarrow> (nat \<Rightarrow> byte) \<Rightarrow> byte list \<times> (nat \<Rightarrow> byte)" where
  "randomBytes n g = (map g [0..<n], \<lambda>i. g (i + n))"


section \<open>Errors\<close>

text \<open>
  An error thrown by a collaborator (the keychain, Node's \<open>crypto\<close>, \<open>ensure\<close>, the
  runtime) carries its \<open>name\<close>, which is all \<open>init\<close> inspects. The errors of the class
  itself are told apart by where they are raised: \<open>KeychainPasswordCreationError\<close> by the
  guard of \<open>encrypt\<close>, \<open>InvalidEncryptedFormatError\<close> by the segment check of \<open>decrypt\<close>,
  \<open>AuthDecryptError e\<close> by the \<open>catch\<close> of \<open>decrypt\<close> (the cause \<open>e\<close> re-thrown through
  \<open>SfdxError.wrap\<close> with the AuthDecryptError message), \<open>NoKeyLoaded\<close> by the key cell,
  and \<open>Thrown e\<close> is a collaborator's error that propagates unchanged.
\<close>

datatype js_error = JsError (err_name: string)

datatype error =
    KeychainPasswordCreationError
  | InvalidEncryptedFormatError
  | AuthDecryptError js_error
  | NoKeyLoaded
  | Thrown js_error

text \<open>\<open>ensure(v)\<close> of \<open>@salesforce/ts-types\<close> throws when \<open>v\<close> is undefined or null.\<close>

definition ensure :: "'a option \<Rightarrow> js_error + 'a" where
  "ensure v = (case v of None \<Rightarrow> Inl (JsError ''UnexpectedValueTypeError'') | Some x \<Rightarrow> Inr x)"


section \<open>The key cell\<close>

text \<open>
  Modelled from the spec: the class \<open>SecureBuffer\<close> of \<open>./secureBuffer\<close> is not among the
  sources. The specification describes it as a cell that wraps at most one key and is
  \<open>Empty\<close> or \<open>Populated\<close>. The cell holds the UTF-8 bytes of the password, which
  \<open>buffer.toString('utf8')\<close> reads back; the model keeps the string.
\<close>

datatype SecureBuffer = Empty | Populated string

text \<open>
  Modelled from the spec: \<open>consume(bytes)\<close> of the absent \<open>SecureBuffer\<close> stores the bytes
  as the current key, overwriting a key already there, and does not check the length.
\<close>

definition consume :: "string \<Rightarrow> SecureBuffer \<Rightarrow> SecureBuffer" where
  "consume bytes cell = Populated bytes"

text \<open>
  Modelled from the spec: \<open>value(fn)\<close> of the absent \<open>SecureBuffer\<close> fails with
  \<open>NoKeyLoaded\<close> on an empty cell, and otherwise calls \<open>fn\<close> once with the bytes and
  returns its result (an error \<open>fn\<close> throws propagates).
\<close>

definition sb_value :: "SecureBuffer \<Rightarrow> (string \<Rightarrow> error + 'a) \<Rightarrow> error + 'a" where
  "sb_value cell cb = (case cell of Empty \<Rightarrow> Inl NoKeyLoaded | Populated k \<Rightarrow> cb k)"

text \<open>
  Modelled from the spec: \<open>clear()\<close> of the absent \<open>SecureBuffer\<close> zeroes the storage and
  leaves the cell \<open>Empty\<close>; it is idempotent.
\<close>

definition clear :: "SecureBuffer \<Rightarrow> SecureBuffer" where
  "clear cell = Empty"


section \<open>Collaborators\<close>

text \<open>
  The keychain is an object with two callbacks over a store of type \<open>'s\<close>. A call answers
  with an error or a result and leaves the store in a new state.
\<close>

record 's keychain =
  kc_getPassword :: "'s \<Rightarrow> string \<Rightarrow> string \<Rightarrow> (js_error + string option) \<times> 's"
  kc_setPassword :: "'s \<Rightarrow> string \<Rightarrow> string \<Rightarrow> string \<Rightarrow> js_error option \<times> 's"

text \<open>
  Node's \<open>crypto\<close> module as \<open>encrypt\<close> and \<open>decrypt\<close> use it, for the one algorithm
  \<open>aes-256-gcm\<close>. \<open>createCipheriv\<close> and \<open>createDecipheriv\<close> answer \<open>Some e\<close> when they
  throw (a key or nonce the suite refuses). \<open>cipher_run key iv text\<close> stands for
  \<open>update(text, 'utf8', 'hex') + final('hex')\<close> and \<open>getAuthTag()\<close>: the ciphertext and
  the tag as bytes. \<open>decipher_run key iv tag secret\<close> stands for \<open>setAuthTag(tag)\<close>,
  \<open>update(secret, 'hex', 'utf8')\<close> and \<open>final('utf8')\<close>, which throw or give the text.
\<close>

record node_crypto =
  createCipheriv :: "string \<Rightarrow> string \<Rightarrow> js_error option"
  cipher_run :: "string \<Rightarrow> string \<Rightarrow> string \<Rightarrow> js_error + (byte list \<times> byte list)"
  createDecipheriv :: "string \<Rightarrow> string \<Rightarrow> js_error option"
  decipher_run :: "string \<Rightarrow> string \<Rightarrow> byte list \<Rightarrow> string \<Rightarrow> js_error + string"

text \<open>
  What \<open>init\<close> reads from its surroundings: \<open>os.platform()\<close> and \<open>retrieveKeychain\<close>
  of \<open>./keyChain\<close>, which resolves the keychain of a platform or throws.
\<close>

record 's env =
  os_platform :: string
  retrieveKeychain :: "string \<Rightarrow> js_error + 's keychain"

text \<open>
  The world \<open>init\<close> acts on: the store behind the keychain, the entropy left, and the
  calls made to the keychain so far, in order.
\<close>

datatype call = GetPassword string string | SetPassword string string string

record 's world =
  store :: 's
  entropy :: "nat \<Rightarrow> byte"
  calls :: "call list"

text \<open>The promise wrappers \<open>keychainPromises.getPassword\<close> and \<open>setPassword\<close>.\<close>

definition getPassword ::
  "'s keychain \<Rightarrow> string \<Rightarrow> string \<Rightarrow> 's world \<Rightarrow> (js_error + string) \<times> 's world" where
  "getPassword kc service account w =
     (case kc_getPassword kc (store w) service account of
        (r, s') \<Rightarrow>
          (let w' = w\<lparr>store := s', calls := calls w @ [GetPassword service account]\<rparr>
           in case r of
                Inl err \<Rightarrow> (Inl err, w')
              | Inr password \<Rightarrow> (ensure password, w')))"

definition setPassword ::
  "'s keychain \<Rightarrow> string \<Rightarrow> string \<Rightarrow> string \<Rightarrow> 's world \<Rightarrow> js_error option \<times> 's world" where
  "setPassword kc service account password w =
     (case kc_setPassword kc (store w) service account password of
        (r, s') \<Rightarrow>
          (r, w\<lparr>store := s', calls := calls w @ [SetPassword service account password]\<rparr>))"


section \<open>The class Crypto\<close>

record 's options =
  platform :: "string option"
  keychain :: "'s keychain option"
  opt_noResetOnClose :: bool
  retryStatus :: "string option"

text \<open>
  The field \<open>_key\<close> is \<open>this_key\<close>; it is an object reference, so it may be null (\<open>None\<close>).
  The field \<open>noResetOnClose\<close> is undefined, hence falsy, until \<open>init\<close> assigns it.
  The field \<open>messages\<close> is undefined until \<open>init\<close> assigns it (line 144); the model keeps
  whether it has been assigned, since \<open>this.messages.getMessage(...)\<close> on the undefined
  field throws a \<open>TypeError\<close>. The texts of the messages and logging are left out.
\<close>

record 's Crypto =
  this_key :: "SecureBuffer option"
  options :: "'s options"
  messages :: bool
  noResetOnClose :: bool

text \<open>
  \<open>this.messages.getMessage(...)\<close> followed by \<open>throw\<close> of the error \<open>e\<close> built from
  the message: the \<open>TypeError\<close> of the runtime when the field is still undefined.
\<close>

definition throw_message :: "'s Crypto \<Rightarrow> error \<Rightarrow> error" where
  "throw_message c e = (if messages c then e else Thrown (JsError ''TypeError''))"

definition no_options :: "'s options" where
  "no_options = \<lparr>platform = None, keychain = None, opt_noResetOnClose = False, retryStatus = None\<rparr>"

definition new_Crypto :: "'s options option \<Rightarrow> 's Crypto" where
  "new_Crypto opts =
     \<lparr>this_key = Some Empty,
      options = (case opts of None \<Rightarrow> no_options | Some os \<Rightarrow> os),
      messages = False,
      noResetOnClose = False\<rparr>"

definition encrypt ::
  "node_crypto \<Rightarrow> (nat \<Rightarrow> byte) \<Rightarrow> 's Crypto \<Rightarrow> string option \<Rightarrow> error + string option" where
  "encrypt lib g c text =
     (case text of
        None \<Rightarrow> Inr None
      | Some t \<Rightarrow>
          (case this_key c of
             None \<Rightarrow> Inl (throw_message c KeychainPasswordCreationError)
           | Some cell \<Rightarrow>
               (let iv = toHex (fst (randomBytes BYTE_COUNT_FOR_IV g))
                in sb_value cell (\<lambda>buffer.
                     case createCipheriv lib buffer iv of
                       Some e \<Rightarrow> Inl (Thrown e)
                     | None \<Rightarrow>
                         (case cipher_run lib buffer iv t of
                            Inl e \<Rightarrow> Inl (Thrown e)
                          | Inr (encrypted, tag) \<Rightarrow>
                              Inr (Some (iv @ toHex encrypted @ TAG_DELIMITER # toHex tag)))))))"

text \<open>
  Lines 99, 100 and 105 to 107 of \<open>decrypt\<close>: the split, the segment check (\<open>None\<close> when
  there are not two segments), and the three parts \<open>(tag, iv, secret)\<close>.
\<close>

definition parse_envelope :: "string \<Rightarrow> (string \<times> string \<times> string) option" where
  "parse_envelope text =
     (let tokens = split_js TAG_DELIMITER text
      in if length tokens \<noteq> 2 then None
         else (let tag = tokens ! 1;
                   iv = substring 0 (BYTE_COUNT_FOR_IV * 2) (tokens ! 0);
                   secret = substring (BYTE_COUNT_FOR_IV * 2) (length (tokens ! 0)) (tokens ! 0)
               in Some (tag, iv, secret)))"

definition decrypt :: "node_crypto \<Rightarrow> 's Crypto \<Rightarrow> string option \<Rightarrow> error + string option" where
  "decrypt lib c text =
     (case text of
        None \<Rightarrow> Inr None
      | Some t \<Rightarrow>
          (case parse_envelope t of
             None \<Rightarrow> Inl (throw_message c InvalidEncryptedFormatError)
           | Some (tag, iv, secret) \<Rightarrow>
               (case this_key c of
                  None \<Rightarrow> Inl (Thrown (JsError ''TypeError''))
                | Some cell \<Rightarrow>
                    sb_value cell (\<lambda>buffer.
                      case createDecipheriv lib buffer iv of
                        Some e \<Rightarrow> Inl (Thrown e)
                      | None \<Rightarrow>
                          (case decipher_run lib buffer iv (fromHex tag) secret of
                             Inl e \<Rightarrow> Inl (throw_message c (AuthDecryptError e))
                           | Inr dec \<Rightarrow> Inr (Some dec))))))"

text \<open>
  \<open>close\<close> clears the cell unless \<open>noResetOnClose\<close> is set. (On a null \<open>_key\<close> the source
  would throw a \<open>TypeError\<close>; the model leaves such an instance as it is, and lemma
  \<open>reachable_key\<close> shows that no instance has a null \<open>_key\<close>.)
\<close>

definition close :: "'s Crypto \<Rightarrow> 's Crypto" where
  "close c = (if \<not> noResetOnClose c then c\<lparr>this_key := map_option clear (this_key c)\<rparr> else c)"

definition getKeyChain ::
  "'s env \<Rightarrow> 's Crypto \<Rightarrow> string \<Rightarrow> (js_error + 's keychain) \<times> 's Crypto" where
  "getKeyChain env c pf =
     (case keychain (options c) of
        Some kc \<Rightarrow> (Inr kc, c)
      | None \<Rightarrow>
          (case retrieveKeychain env pf of
             Inl e \<Rightarrow> (Inl e, c)
           | Inr kc \<Rightarrow> (Inr kc, c\<lparr>options := (options c)\<lparr>keychain := Some kc\<rparr>\<rparr>)))"

text \<open>Lines 140 to 145 of \<open>init\<close>: the platform default, the messages and the flag.\<close>

definition init_fields :: "'s env \<Rightarrow> 's Crypto \<Rightarrow> 's Crypto" where
  "init_fields env c =
     (let pf = (case platform (options c) of
                  None \<Rightarrow> os_platform env
                | Some p \<Rightarrow> if p = [] then os_platform env else p);
          c1 = c\<lparr>options := (options c)\<lparr>platform := Some pf\<rparr>\<rparr>;
          c2 = c1\<lparr>messages := True\<rparr>
      in c2\<lparr>noResetOnClose := opt_noResetOnClose (options c2)\<rparr>)"

text \<open>
  The \<open>try\<close> block of \<open>init\<close>. The callee \<open>this._key.consume\<close> is evaluated before its
  argument, so a null \<open>_key\<close> throws before the keychain is asked.
\<close>

definition init_try :: "'s env \<Rightarrow> 's world \<Rightarrow> 's Crypto \<Rightarrow> (js_error + unit) \<times> 's world \<times> 's Crypto" where
  "init_try env w c =
     (case this_key c of
        None \<Rightarrow> (Inl (JsError ''TypeError''), w, c)
      | Some cell \<Rightarrow>
          (case getKeyChain env c (case platform (options c) of None \<Rightarrow> [] | Some p \<Rightarrow> p) of
             (Inl e, c1) \<Rightarrow> (Inl e, w, c1)
           | (Inr kc, c1) \<Rightarrow>
               (case getPassword kc KEY_NAME ACCOUNT w of
                  (Inl e, w1) \<Rightarrow> (Inl e, w1, c1)
                | (Inr password, w1) \<Rightarrow>
                    (Inr (), w1, c1\<lparr>this_key := Some (consume password cell)\<rparr>))))"

text \<open>
  \<open>init\<close> calls itself after setting a password, so it is a partial function: \<open>None\<close> is
  a run that never returns. A run that returns gives the outcome (\<open>Inl\<close> the error
  thrown), the world and the instance as the run left them.
\<close>

partial_function (option) init ::
  "'s env \<Rightarrow> 's world \<Rightarrow> 's Crypto \<Rightarrow> ((error + unit) \<times> 's world \<times> 's Crypto) option" where
  "init env w c =
     (case init_try env w (init_fields env c) of
        (Inr u, w1, c1) \<Rightarrow> Some (Inr (), w1, c1)
      | (Inl err, w1, c1) \<Rightarrow>
          (if err_name err = ''PasswordNotFoundError'' then
             (if retryStatus (options c1) = Some ''KEY_SET'' then Some (Inl (Thrown err), w1, c1)
              else
                (case randomBytes 16 (entropy w1) of
                   (bytes, rest) \<Rightarrow>
                     (let key = toHex bytes; w2 = w1\<lparr>entropy := rest\<rparr>
                      in case ensure (keychain (options c1)) of
                           Inl e \<Rightarrow> Some (Inl (Thrown e), w2, c1)
                         | Inr kc \<Rightarrow>
                             (case setPassword kc KEY_NAME ACCOUNT key w2 of
                                (Some e, w3) \<Rightarrow> Some (Inl (Thrown e), w3, c1)
                              | (None, w3) \<Rightarrow> init env w3 c1))))
           else Some (Inl (Thrown err), w1, c1)))"

text \<open>
  The instances a program can hold: the constructor's, and those \<open>init\<close> and \<open>close\<close>
  leave behind (\<open>encrypt\<close> and \<open>decrypt\<close> assign no field).
\<close>

inductive reachable :: "'s env \<Rightarrow> 's Crypto \<Rightarrow> bool" for env :: "'s env" where
  constructed: "reachable env (new_Crypto opts)"
| after_init: "reachable env c \<Longrightarrow> init env w c = Some (r, w', c') \<Longrightarrow> reachable env c'"
| after_close: "reachable env c \<Longrightarrow> reachable env (close c)"

text \<open>
  What a returned run of \<open>init\<close> on the instance \<open>c\<close> guarantees of its outcome \<open>y\<close>:
  a non-null \<open>_key\<close> stays non-null, the option \<open>noResetOnClose\<close> is kept and copied
  to the field, the messages are loaded, and a run that does not throw has filled the key
  cell.
\<close>

definition init_post :: "'s Crypto \<Rightarrow> (error + unit) \<times> 's world \<times> 's Crypto \<Rightarrow> bool" where
  "init_post c y \<longleftrightarrow>
     (this_key c \<noteq> None \<longrightarrow> this_key (snd (snd y)) \<noteq> None) \<and>
     opt_noResetOnClose (options (snd (snd y))) = opt_noResetOnClose (options c) \<and>
     noResetOnClose (snd (snd y)) = opt_noResetOnClose (options c) \<and>
     messages (snd (snd y)) \<and>
     (fst y = Inr () \<longrightarrow> (\<exists>p. this_key (snd (snd y)) = Some (Populated p)))"


section \<open>Stand-ins for the collaborators\<close>

text \<open>
  Concrete collaborators on which the model is run: a keychain that keeps one password
  in memory, a keychain that reports success on \<open>setPassword\<close> and keeps nothing, an
  environment that resolves a given keychain, and a cipher library that accepts keys of
  32 characters, encodes the text byte for byte and authenticates it with a two-byte tag
  (a marker and a checksum of key, nonce and text).
\<close>

definition memory_keychain :: "string option keychain" where
  "memory_keychain =
     \<lparr>kc_getPassword = (\<lambda>s service account.
         case s of
           None \<Rightarrow> (Inl (JsError ''PasswordNotFoundError''), s)
         | Some p \<Rightarrow> (Inr (Some p), s)),
      kc_setPassword = (\<lambda>s service account password. (None, Some password))\<rparr>"

definition dropping_keychain :: "unit keychain" where
  "dropping_keychain =
     \<lparr>kc_getPassword = (\<lambda>s service account. (Inl (JsError ''PasswordNotFoundError''), s)),
      kc_setPassword = (\<lambda>s service account password. (None, s))\<rparr>"

definition demo_env :: "'s keychain \<Rightarrow> 's env" where
  "demo_env kc = \<lparr>os_platform = ''linux'', retrieveKeychain = (\<lambda>pf. Inr kc)\<rparr>"

definition demo_tag :: "string \<Rightarrow> string \<Rightarrow> string \<Rightarrow> byte list" where
  "demo_tag k iv t = [0xAB, of_nat (sum_list (map of_char (k @ iv @ t)))]"

definition demo_crypto :: node_crypto where
  "demo_crypto =
     \<lparr>createCipheriv = (\<lambda>k iv. if length k = 32 then None else Some (JsError ''RangeError'')),
      cipher_run = (\<lambda>k iv t. Inr (map of_char t, demo_tag k iv t)),
      createDecipheriv = (\<lambda>k iv. if length k = 32 then None else Some (JsError ''RangeError'')),
      decipher_run = (\<lambda>k iv tag secret.
         (let t = map (\<lambda>b. char_of (unat b)) (fromHex secret)
          in if tag = demo_tag k iv t then Inr t else Inl (JsError ''Error'')))\<rparr>"

definition demo_key :: string where
  "demo_key = ''00112233445566778899aabbccddeeff''"

definition counting :: "nat \<Rightarrow> byte" where
  "counting i = of_nat i"

text \<open>
  The instance \<open>init\<close> leaves when the in-memory keychain already holds \<open>demo_key\<close> and
  the option \<open>noResetOnClose\<close> is \<open>flag\<close> (lemma \<open>init_ready\<close> below).
\<close>

definition ready :: "bool \<Rightarrow> string option Crypto" where
  "ready flag =
     \<lparr>this_key = Some (Populated demo_key),
      options = \<lparr>platform = Some ''linux'', keychain = Some memory_keychain,
                 opt_noResetOnClose = flag, retryStatus = None\<rparr>,
      messages = True,
      noResetOnClose = flag\<rparr>"

definition stocked :: "string option world" where
  "stocked = \<lparr>store = Some demo_key, entropy = counting, calls = []\<rparr>"


section \<open>Hexadecimal strings and segments\<close>

lemma high_nibble: "unat (b :: byte) div 16 < 16"
proof -
  have "unat b < 256" using unsigned_less [of b, where ?'a = nat] by simp
  then show ?thesis by simp
qed

lemma low_nibble: "unat (b :: byte) mod 16 < 16"
  by simp

lemma hex_digit_not_delim: "n < 16 \<Longrightarrow> hex_digit n \<noteq> TAG_DELIMITER"
proof
  assume n: "n < 16" and "hex_digit n = TAG_DELIMITER"
  then have "(of_char (hex_digit n) :: nat) = of_char TAG_DELIMITER" by simp
  with n show False by (simp add: hex_digit_def TAG_DELIMITER_def split: if_splits)
qed

lemma hex_value_hex_digit: "n < 16 \<Longrightarrow> hex_value (hex_digit n) = Some n"
  by (simp add: hex_value_def hex_digit_def Let_def)

lemma toHex_no_delim: "TAG_DELIMITER \<notin> set (toHex bs)"
proof (induction bs)
  case Nil
  show ?case by simp
next
  case (Cons b bs)
  have "hex_digit (unat b div 16) \<noteq> TAG_DELIMITER"
    by (rule hex_digit_not_delim) (rule high_nibble)
  moreover have "hex_digit (unat b mod 16) \<noteq> TAG_DELIMITER"
    by (rule hex_digit_not_delim) (rule low_nibble)
  ultimately show ?case using Cons by auto
qed

lemma length_toHex: "length (toHex bs) = 2 * length bs"
  by (induction bs) simp_all

lemma is_hex_toHex: "list_all (\<lambda>ch. hex_value ch \<noteq> None) (toHex bs)"
  by (induction bs) (simp_all add: hex_value_hex_digit high_nibble)

lemma fromHex_toHex: "fromHex (toHex bs) = bs"
  by (induction bs) (simp_all add: hex_value_hex_digit high_nibble)

lemma split_js_nonempty: "split_js d xs \<noteq> []"
  by (induction xs) (auto split: list.splits)

lemma split_js_no_delim: "d \<notin> set xs \<Longrightarrow> split_js d xs = [xs]"
  by (induction xs) auto

lemma split_js_append: "d \<notin> set xs \<Longrightarrow> split_js d (xs @ d # ys) = xs # split_js d ys"
  by (induction xs) auto

lemma length_split_js: "length (split_js d xs) = Suc (length (filter (\<lambda>c. c = d) xs))"
  by (induction xs) (auto split: list.splits simp: split_js_nonempty)

lemma substring_take: "substring 0 n s = take n s"
  by (simp add: substring_def Let_def min_def)

lemma substring_drop: "m = length s \<Longrightarrow> substring n m s = drop n s"
  by (simp add: substring_def Let_def min_def max_def)

lemma length_nonce: "length (toHex (fst (randomBytes BYTE_COUNT_FOR_IV g))) = 12"
  by (simp add: randomBytes_def BYTE_COUNT_FOR_IV_def length_toHex)

lemma parse_envelope_parts:
  assumes "length iv = 12" and "TAG_DELIMITER \<notin> set iv" and "TAG_DELIMITER \<notin> set secret"
    and "TAG_DELIMITER \<notin> set tag"
  shows "parse_envelope (iv @ secret @ TAG_DELIMITER # tag) = Some (tag, iv, secret)"
proof -
  have "TAG_DELIMITER \<notin> set (iv @ secret)" using assms by simp
  then have "split_js TAG_DELIMITER ((iv @ secret) @ TAG_DELIMITER # tag)
      = (iv @ secret) # split_js TAG_DELIMITER tag"
    by (rule split_js_append)
  then have "split_js TAG_DELIMITER (iv @ secret @ TAG_DELIMITER # tag) = [iv @ secret, tag]"
    using assms(4) by (simp add: split_js_no_delim)
  then show ?thesis
    using assms(1)
    by (simp add: parse_envelope_def Let_def BYTE_COUNT_FOR_IV_def substring_take substring_drop)
qed


section \<open>encrypt and decrypt on a loaded key\<close>

lemma encrypt_populated:
  assumes "this_key c = Some (Populated k)"
    and "createCipheriv lib k (toHex (fst (randomBytes BYTE_COUNT_FOR_IV g))) = None"
    and "cipher_run lib k (toHex (fst (randomBytes BYTE_COUNT_FOR_IV g))) s = Inr (ct, tg)"
  shows "encrypt lib g c (Some s) =
    Inr (Some (toHex (fst (randomBytes BYTE_COUNT_FOR_IV g)) @ toHex ct @ TAG_DELIMITER # toHex tg))"
  using assms by (simp add: encrypt_def sb_value_def Let_def)

lemma decrypt_populated:
  assumes "this_key c = Some (Populated k)"
    and "parse_envelope t = Some (tag, iv, secret)"
    and "createDecipheriv lib k iv = None"
  shows "decrypt lib c (Some t) =
    (case decipher_run lib k iv (fromHex tag) secret of
       Inl e \<Rightarrow> Inl (throw_message c (AuthDecryptError e))
     | Inr dec \<Rightarrow> Inr (Some dec))"
  using assms by (simp add: decrypt_def sb_value_def)

lemma roundtrip_populated:
  assumes "this_key c = Some (Populated k)"
    and "createCipheriv lib k (toHex (fst (randomBytes BYTE_COUNT_FOR_IV g))) = None"
    and "createDecipheriv lib k (toHex (fst (randomBytes BYTE_COUNT_FOR_IV g))) = None"
    and "cipher_run lib k (toHex (fst (randomBytes BYTE_COUNT_FOR_IV g))) s = Inr (ct, tg)"
    and "decipher_run lib k (toHex (fst (randomBytes BYTE_COUNT_FOR_IV g))) tg (toHex ct) = Inr s"
  shows "\<exists>env. encrypt lib g c (Some s) = Inr (Some env) \<and> decrypt lib c (Some env) = Inr (Some s)"
proof -
  let ?iv = "toHex (fst (randomBytes BYTE_COUNT_FOR_IV g))"
  let ?env = "?iv @ toHex ct @ TAG_DELIMITER # toHex tg"
  have enc: "encrypt lib g c (Some s) = Inr (Some ?env)"
    using assms(1,2,4) by (rule encrypt_populated)
  have parse: "parse_envelope ?env = Some (toHex tg, ?iv, toHex ct)"
    by (rule parse_envelope_parts) (simp_all add: length_nonce toHex_no_delim)
  have "decrypt lib c (Some ?env) = Inr (Some s)"
    using decrypt_populated [OF assms(1) parse assms(3)] assms(5) by (simp add: fromHex_toHex)
  with enc show ?thesis by blast
qed


section \<open>Runs on the stand-ins\<close>

lemma demo_nonce: "toHex (fst (randomBytes BYTE_COUNT_FOR_IV counting)) = ''000102030405''"
  by code_simp

lemma demo_seal: "cipher_run demo_crypto demo_key ''000102030405'' ''secret''
   = Inr ([0x73, 0x65, 0x63, 0x72, 0x65, 0x74], [0xAB, 0x99])"
  by code_simp

lemma demo_open: "decipher_run demo_crypto demo_key ''000102030405'' [0xAB, 0x99]
    (toHex [0x73, 0x65, 0x63, 0x72, 0x65, 0x74]) = Inr ''secret''"
  by code_simp

lemma demo_accepts:
  "createCipheriv demo_crypto demo_key iv = None"
  "createDecipheriv demo_crypto demo_key iv = None"
  by (simp_all add: demo_crypto_def demo_key_def)

lemma ready_key: "this_key (ready flag) = Some (Populated demo_key)"
  by (simp add: ready_def)

lemma ready_messages: "messages (ready flag)"
  by (simp add: ready_def)

lemma demo_encrypt:
  "encrypt demo_crypto counting (ready False) (Some ''secret'')
     = Inr (Some ''000102030405736563726574:ab99'')"
  by code_simp


section \<open>Properties of encrypt and decrypt\<close>

text \<open>
  C3. Round trip. On an instance whose key cell holds a key \<open>k\<close> that the cipher suite
  accepts with the nonce drawn by \<open>encrypt\<close>, and with a cipher library whose decipher
  gives back the text \<open>s\<close> from the ciphertext and tag its cipher produced for \<open>s\<close>,
  \<open>encrypt\<close> of \<open>s\<close> returns an envelope and \<open>decrypt\<close> of that envelope returns \<open>s\<close>.
\<close>

theorem decrypt_encrypt_roundtrip:
  assumes "this_key c = Some (Populated k)"
    and "iv = toHex (fst (randomBytes BYTE_COUNT_FOR_IV g))"
    and "createCipheriv lib k iv = None"
    and "createDecipheriv lib k iv = None"
    and "cipher_run lib k iv s = Inr (ct, tg)"
    and "decipher_run lib k iv tg (toHex ct) = Inr s"
  shows "\<exists>env. encrypt lib g c (Some s) = Inr (Some env) \<and> decrypt lib c (Some env) = Inr (Some s)"
  using assms roundtrip_populated [of c k lib g s ct tg] by simp

theorem decrypt_encrypt_roundtrip_witness:
  "\<exists>env. encrypt demo_crypto counting (ready False) (Some ''secret'') = Inr (Some env)
      \<and> decrypt demo_crypto (ready False) (Some env) = Inr (Some ''secret'')"
  by (rule decrypt_encrypt_roundtrip
      [OF ready_key demo_nonce [symmetric] demo_accepts(1) demo_accepts(2) demo_seal demo_open])

text \<open>
  C5. Malformed envelope. On an instance that \<open>init\<close> has run on (its messages are
  loaded), for every non-null input \<open>decrypt\<close> fails with \<open>InvalidEncryptedFormatError\<close>
  exactly when splitting the input on the delimiter does not give two segments;
  \<open>"no-delimiter-here"\<close> (one segment) and \<open>"a:b:c"\<close> (three) both do.
\<close>

theorem decrypt_invalid_format_iff:
  assumes "messages c"
  shows "(decrypt lib c (Some text) = Inl InvalidEncryptedFormatError
      \<longleftrightarrow> length (split_js TAG_DELIMITER text) \<noteq> 2)
   \<and> decrypt lib c (Some ''no-delimiter-here'') = Inl InvalidEncryptedFormatError
   \<and> decrypt lib c (Some ''a:b:c'') = Inl InvalidEncryptedFormatError"
proof -
  have "decrypt lib c (Some t) = Inl InvalidEncryptedFormatError
      \<longleftrightarrow> length (split_js TAG_DELIMITER t) \<noteq> 2" for t
    using assms
    by (auto simp: decrypt_def parse_envelope_def sb_value_def throw_message_def Let_def
        split: option.splits SecureBuffer.splits sum.splits)
  moreover have "length (split_js TAG_DELIMITER ''no-delimiter-here'') = 1"
    by (simp add: TAG_DELIMITER_def)
  moreover have "length (split_js TAG_DELIMITER ''a:b:c'') = 3"
    by (simp add: TAG_DELIMITER_def)
  ultimately show ?thesis by simp
qed

theorem decrypt_invalid_format_iff_witness:
  "messages (ready False)
   \<and> decrypt demo_crypto (ready False) (Some ''no-delimiter-here'') = Inl InvalidEncryptedFormatError
   \<and> decrypt demo_crypto (ready False) (Some ''a:b:c'') = Inl InvalidEncryptedFormatError
   \<and> decrypt demo_crypto (ready False) (Some ''000102030405736563726574:bb99'')
       \<noteq> Inl InvalidEncryptedFormatError"
proof -
  have two: "length (split_js TAG_DELIMITER ''000102030405736563726574:bb99'') = 2"
    by (simp add: TAG_DELIMITER_def)
  from decrypt_invalid_format_iff [OF ready_messages, of demo_crypto False
      "''000102030405736563726574:bb99''"] two ready_messages
  show ?thesis by simp
qed

text \<open>
  C7. Envelope format. Whenever \<open>encrypt\<close> returns a string for a non-null text \<open>s\<close>, the
  key cell holds a key \<open>k\<close>, the cipher was run on \<open>k\<close>, the nonce and \<open>s\<close>, and the string
  is the nonce, the ciphertext of that run, the delimiter and the tag of that run, in this
  order, all three in hexadecimal; the nonce is the encoding of the 6 random bytes and has
  12 characters; the delimiter occurs once. The parsing of \<open>decrypt\<close> recovers the tag from
  the second segment, the nonce from the first 12 characters of the first segment and the
  ciphertext from the rest of it, and \<open>decrypt\<close> hands exactly these to the decipher.
\<close>

theorem encrypt_envelope_shape:
  assumes "encrypt lib g c (Some s) = Inr (Some env)"
    and "nonce = toHex (fst (randomBytes BYTE_COUNT_FOR_IV g))"
  shows "\<exists>k ct tg. this_key c = Some (Populated k)
           \<and> createCipheriv lib k nonce = None
           \<and> cipher_run lib k nonce s = Inr (ct, tg)
           \<and> env = nonce @ toHex ct @ TAG_DELIMITER # toHex tg
           \<and> length nonce = 12
           \<and> list_all (\<lambda>ch. hex_value ch \<noteq> None) (nonce @ toHex ct @ toHex tg)
           \<and> length (filter (\<lambda>ch. ch = TAG_DELIMITER) env) = 1
           \<and> parse_envelope env = Some (toHex tg, nonce, toHex ct)
           \<and> decrypt lib c (Some env)
               = (case createDecipheriv lib k nonce of
                    Some e \<Rightarrow> Inl (Thrown e)
                  | None \<Rightarrow>
                      (case decipher_run lib k nonce tg (toHex ct) of
                         Inl e \<Rightarrow> Inl (throw_message c (AuthDecryptError e))
                       | Inr dec \<Rightarrow> Inr (Some dec)))"
proof -
  from assms obtain k ct tg where key: "this_key c = Some (Populated k)"
    and cok: "createCipheriv lib k nonce = None"
    and run: "cipher_run lib k nonce s = Inr (ct, tg)"
    and env: "env = nonce @ toHex ct @ TAG_DELIMITER # toHex tg"
    by (auto simp: encrypt_def sb_value_def Let_def
        split: option.splits SecureBuffer.splits sum.splits prod.splits)
  have len: "length nonce = 12" using assms(2) by (simp add: length_nonce)
  have nd: "TAG_DELIMITER \<notin> set nonce" using assms(2) by (simp add: toHex_no_delim)
  have hex: "list_all (\<lambda>ch. hex_value ch \<noteq> None) (nonce @ toHex ct @ toHex tg)"
    unfolding assms(2) list_all_append by (intro conjI is_hex_toHex)
  have "filter (\<lambda>ch. ch = TAG_DELIMITER) (toHex bs) = []" for bs
    using toHex_no_delim [of bs] by (auto simp: filter_empty_conv)
  then have one: "length (filter (\<lambda>ch. ch = TAG_DELIMITER) env) = 1"
    using env assms(2) by simp
  have parse: "parse_envelope env = Some (toHex tg, nonce, toHex ct)"
    unfolding env by (rule parse_envelope_parts) (simp_all add: len nd toHex_no_delim)
  have dec: "decrypt lib c (Some env)
               = (case createDecipheriv lib k nonce of
                    Some e \<Rightarrow> Inl (Thrown e)
                  | None \<Rightarrow>
                      (case decipher_run lib k nonce tg (toHex ct) of
                         Inl e \<Rightarrow> Inl (throw_message c (AuthDecryptError e))
                       | Inr dec \<Rightarrow> Inr (Some dec)))"
    using key parse
    by (auto simp: decrypt_def sb_value_def fromHex_toHex split: option.splits sum.splits)
  from key cok run env len hex one parse dec show ?thesis by blast
qed

theorem encrypt_envelope_shape_witness:
  "encrypt demo_crypto counting (ready False) (Some ''secret'')
     = Inr (Some ''000102030405736563726574:ab99'')
   \<and> (\<exists>k ct tg. this_key (ready False) = Some (Populated k)
         \<and> cipher_run demo_crypto k ''000102030405'' ''secret'' = Inr (ct, tg)
         \<and> ''000102030405736563726574:ab99''
           = ''000102030405'' @ toHex ct @ TAG_DELIMITER # toHex tg
         \<and> parse_envelope ''000102030405736563726574:ab99''
           = Some (toHex tg, ''000102030405'', toHex ct))"
  using encrypt_envelope_shape [OF demo_encrypt demo_nonce [symmetric] ] demo_encrypt by blast

text \<open>
  C8. Null input. \<open>encrypt(null)\<close> and \<open>decrypt(null)\<close> return undefined (\<open>Inr None\<close>) on
  every instance, whatever its key cell holds, and raise nothing; a non-null input never
  gives undefined. Neither function assigns a field, so the key cell is as it was.
\<close>

theorem null_input_gives_undefined:
  "encrypt lib g c None = Inr None \<and> decrypt lib c None = Inr None
   \<and> encrypt lib g c (Some t) \<noteq> Inr None \<and> decrypt lib c (Some t) \<noteq> Inr None"
  by (auto simp: encrypt_def decrypt_def sb_value_def Let_def
      split: option.splits SecureBuffer.splits sum.splits prod.splits)


section \<open>The run of init\<close>

lemma init_fields_keeps:
  "this_key (init_fields env c) = this_key c"
  "keychain (options (init_fields env c)) = keychain (options c)"
  "retryStatus (options (init_fields env c)) = retryStatus (options c)"
  "opt_noResetOnClose (options (init_fields env c)) = opt_noResetOnClose (options c)"
  "noResetOnClose (init_fields env c) = opt_noResetOnClose (options c)"
  "messages (init_fields env c)"
  by (simp_all add: init_fields_def Let_def)

lemma init_try_keeps:
  assumes "init_try env w c = (r, w1, c1)"
  shows "retryStatus (options c1) = retryStatus (options c)"
    and "opt_noResetOnClose (options c1) = opt_noResetOnClose (options c)"
    and "noResetOnClose c1 = noResetOnClose c"
    and "messages c1 = messages c"
    and "this_key c \<noteq> None \<Longrightarrow> this_key c1 \<noteq> None"
    and "r = Inr u \<Longrightarrow> \<exists>p. this_key c1 = Some (Populated p)"
  using assms
  by (auto simp: init_try_def getKeyChain_def getPassword_def consume_def Let_def
      split: option.splits sum.splits prod.splits)

lemma init_attempt_keeps:
  assumes "init_try env w (init_fields env c) = (r, w1, c1)"
  shows "retryStatus (options c1) = retryStatus (options c)"
    and "opt_noResetOnClose (options c1) = opt_noResetOnClose (options c)"
    and "noResetOnClose c1 = opt_noResetOnClose (options c)"
    and "messages c1"
    and "this_key c \<noteq> None \<Longrightarrow> this_key c1 \<noteq> None"
    and "r = Inr u \<Longrightarrow> \<exists>p. this_key c1 = Some (Populated p)"
  using init_try_keeps [OF assms] by (simp_all add: init_fields_keeps)

lemma init_returns_post:
  assumes "init env0 w0 c0 = Some y0"
  shows "init_post c0 y0"
proof (rule init.raw_induct [where P = "\<lambda>env w c y. init_post c y", OF _ assms], goal_cases)
  case (1 init' env w c y)
  obtain r w1 c1 where att: "init_try env w (init_fields env c) = (r, w1, c1)"
    by (cases "init_try env w (init_fields env c)") auto
  note keeps = init_attempt_keeps [OF att]
  show ?case
  proof (cases r)
    case (Inr u)
    with 1(2) att have "y = (Inr (), w1, c1)" by simp
    with Inr keeps show ?thesis by (auto simp: init_post_def)
  next
    case (Inl err)
    show ?thesis
    proof (cases "err_name err = ''PasswordNotFoundError'' \<and> retryStatus (options c1) \<noteq> Some ''KEY_SET''")
      case False
      with 1(2) att Inl have "y = (Inl (Thrown err), w1, c1)" by (auto split: if_splits)
      with keeps Inl show ?thesis by (auto simp: init_post_def)
    next
      case True
      obtain bytes rest where rb: "randomBytes 16 (entropy w1) = (bytes, rest)"
        by (cases "randomBytes 16 (entropy w1)") auto
      show ?thesis
      proof (cases "keychain (options c1)")
        case None
        with 1(2) att Inl True rb
        have "y = (Inl (Thrown (JsError ''UnexpectedValueTypeError'')), w1\<lparr>entropy := rest\<rparr>, c1)"
          by (simp add: ensure_def Let_def)
        with keeps Inl show ?thesis by (auto simp: init_post_def)
      next
        case (Some kc)
        obtain e w3 where sp:
          "setPassword kc KEY_NAME ACCOUNT (toHex bytes) (w1\<lparr>entropy := rest\<rparr>) = (e, w3)"
          by (cases "setPassword kc KEY_NAME ACCOUNT (toHex bytes) (w1\<lparr>entropy := rest\<rparr>)") auto
        show ?thesis
        proof (cases e)
          case (Some e')
          with 1(2) att Inl True rb \<open>keychain (options c1) = Some kc\<close> sp
          have "y = (Inl (Thrown e'), w3, c1)" by (simp add: ensure_def Let_def)
          with keeps Inl show ?thesis by (auto simp: init_post_def)
        next
          case None
          with 1(2) att Inl True rb \<open>keychain (options c1) = Some kc\<close> sp
          have "init' env w3 c1 = Some y" by (simp add: ensure_def Let_def)
          then have "init_post c1 y" by (rule 1(1))
          with keeps show ?thesis by (auto simp: init_post_def)
        qed
      qed
    qed
  qed
qed



lemma getKeyChain_resolved:
  assumes "keychain (options c) = Some kc
      \<or> keychain (options c) = None \<and> (\<forall>pf. retrieveKeychain env pf = Inr kc)"
  shows "\<exists>c1. getKeyChain env c pf = (Inr kc, c1) \<and> keychain (options c1) = Some kc
      \<and> this_key c1 = this_key c \<and> retryStatus (options c1) = retryStatus (options c)"
  using assms by (auto simp: getKeyChain_def)

lemma init_try_not_found:
  assumes "this_key c = Some cell"
    and "keychain (options c) = Some kc
      \<or> keychain (options c) = None \<and> (\<forall>pf. retrieveKeychain env pf = Inr kc)"
    and "kc_getPassword kc (store w) KEY_NAME ACCOUNT = (Inl e, s1)"
  shows "\<exists>c1. init_try env w c
        = (Inl e, w\<lparr>store := s1, calls := calls w @ [GetPassword KEY_NAME ACCOUNT]\<rparr>, c1)
      \<and> keychain (options c1) = Some kc \<and> this_key c1 = Some cell
      \<and> retryStatus (options c1) = retryStatus (options c)"
proof -
  obtain c1 where g: "getKeyChain env c (case platform (options c) of None \<Rightarrow> [] | Some p \<Rightarrow> p) = (Inr kc, c1)"
    and c1: "keychain (options c1) = Some kc" "this_key c1 = this_key c"
      "retryStatus (options c1) = retryStatus (options c)"
    using getKeyChain_resolved [OF assms(2)] by blast
  have "init_try env w c
      = (Inl e, w\<lparr>store := s1, calls := calls w @ [GetPassword KEY_NAME ACCOUNT]\<rparr>, c1)"
    using assms(1,3) g by (simp add: init_try_def getPassword_def Let_def)
  with c1 assms(1) show ?thesis by simp
qed



text \<open>
  The guard of line 158 does stop a run whose caller has set \<open>retryStatus\<close> to
  \<open>'KEY_SET'\<close> beforehand: the first not-found error is re-thrown and no password is set.
\<close>

lemma init_bails_when_flag_set:
  assumes "this_key c = Some cell"
    and "keychain (options c) = Some kc
      \<or> keychain (options c) = None \<and> (\<forall>pf. retrieveKeychain env pf = Inr kc)"
    and "retryStatus (options c) = Some ''KEY_SET''"
    and "kc_getPassword kc (store w) KEY_NAME ACCOUNT = (Inl e, s1)"
    and "err_name e = ''PasswordNotFoundError''"
  shows "\<exists>c'. init env w c
      = Some (Inl (Thrown e), w\<lparr>store := s1, calls := calls w @ [GetPassword KEY_NAME ACCOUNT]\<rparr>, c')"
proof -
  have kc0: "keychain (options (init_fields env c)) = Some kc
      \<or> keychain (options (init_fields env c)) = None \<and> (\<forall>pf. retrieveKeychain env pf = Inr kc)"
    using assms(2) by (simp add: init_fields_keeps)
  obtain c1 where att: "init_try env w (init_fields env c)
        = (Inl e, w\<lparr>store := s1, calls := calls w @ [GetPassword KEY_NAME ACCOUNT]\<rparr>, c1)"
    and c1: "retryStatus (options c1) = retryStatus (options c)"
    using init_try_not_found [OF _ kc0 assms(4), of cell] assms(1) by (auto simp: init_fields_keeps)
  have "init env w c
      = Some (Inl (Thrown e), w\<lparr>store := s1, calls := calls w @ [GetPassword KEY_NAME ACCOUNT]\<rparr>, c1)"
    by (subst init.simps) (simp add: att c1 assms(3,5))
  then show ?thesis by blast
qed

lemma init_ready:
  "init (demo_env memory_keychain) stocked (new_Crypto (Some (no_options\<lparr>opt_noResetOnClose := flag\<rparr>)))
     = Some (Inr (), stocked\<lparr>calls := [GetPassword KEY_NAME ACCOUNT]\<rparr>, ready flag)"
  by (subst init.simps)
     (simp add: init_try_def init_fields_def getKeyChain_def getPassword_def ensure_def consume_def
        Let_def ready_def stocked_def demo_env_def new_Crypto_def no_options_def memory_keychain_def)


lemma reachable_key: "reachable env c \<Longrightarrow> this_key c \<noteq> None"
proof (induction rule: reachable.induct)
  case (constructed opts)
  show ?case by (simp add: new_Crypto_def)
next
  case (after_init c w r w' c')
  from init_returns_post [OF after_init.hyps(2)] after_init.IH
  show ?case by (simp add: init_post_def)
next
  case (after_close c)
  then show ?case by (auto simp: close_def)
qed

lemma reachable_ready: "reachable (demo_env memory_keychain) (ready flag)"
  by (rule after_init [OF constructed init_ready])


section \<open>Properties of init and close\<close>

text \<open>
  C1. Bounded retry. The specification says that with a keychain whose \<open>getPassword\<close> always reports
  \<open>PasswordNotFoundError\<close>, \<open>init\<close> started with \<open>retryStatus\<close> unset fails with that
  error after one \<open>setPassword\<close> and one retried \<open>getPassword\<close>. The code compares
  \<open>retryStatus\<close> with \<open>'KEY_SET'\<close> but never assigns it, so with such a keychain whose
  \<open>setPassword\<close> reports success every attempt sets a password and starts \<open>init\<close> again:
  the run never returns.
\<close>

theorem init_never_returns:
  assumes nf: "\<And>s. \<exists>e. fst (kc_getPassword kc s KEY_NAME ACCOUNT) = Inl e
                  \<and> err_name e = ''PasswordNotFoundError''"
    and set: "\<And>s p. fst (kc_setPassword kc s KEY_NAME ACCOUNT p) = None"
    and kc: "keychain (options c0) = Some kc
      \<or> keychain (options c0) = None \<and> (\<forall>pf. retrieveKeychain env0 pf = Inr kc)"
    and rs: "retryStatus (options c0) = None"
    and key: "this_key c0 \<noteq> None"
  shows "init env0 w0 c0 = None"
proof (rule ccontr)
  assume "init env0 w0 c0 \<noteq> None"
  then obtain y0 where ret: "init env0 w0 c0 = Some y0" by auto
  let ?inv = "\<lambda>c. (keychain (options c) = Some kc
        \<or> keychain (options c) = None \<and> (\<forall>pf. retrieveKeychain env0 pf = Inr kc))
      \<and> retryStatus (options c) \<noteq> Some ''KEY_SET'' \<and> this_key c \<noteq> None"
  have "env0 = env0 \<longrightarrow> \<not> ?inv c0"
  proof (rule init.raw_induct [where P = "\<lambda>env w c y. env = env0 \<longrightarrow> \<not> ?inv c", OF _ ret], goal_cases)
    case (1 init' env w c y)
    show ?case
    proof (intro impI notI)
      assume env: "env = env0" and inv: "?inv c"
      then obtain cell where cell: "this_key c = Some cell" by auto
      obtain e s1 where g: "kc_getPassword kc (store w) KEY_NAME ACCOUNT = (Inl e, s1)"
        and e: "err_name e = ''PasswordNotFoundError''"
        using nf [of "store w"] by (cases "kc_getPassword kc (store w) KEY_NAME ACCOUNT") auto
      let ?w1 = "w\<lparr>store := s1, calls := calls w @ [GetPassword KEY_NAME ACCOUNT]\<rparr>"
      have kc0: "keychain (options (init_fields env c)) = Some kc
          \<or> keychain (options (init_fields env c)) = None \<and> (\<forall>pf. retrieveKeychain env pf = Inr kc)"
        using inv env by (simp add: init_fields_keeps)
      obtain c1 where att: "init_try env w (init_fields env c) = (Inl e, ?w1, c1)"
        and c1: "keychain (options c1) = Some kc" "this_key c1 = Some cell"
          "retryStatus (options c1) = retryStatus (options c)"
        using init_try_not_found [OF _ kc0 g, of cell] cell by (auto simp: init_fields_keeps)
      obtain w3 where sp: "setPassword kc KEY_NAME ACCOUNT (toHex (fst (randomBytes 16 (entropy ?w1))))
              (?w1\<lparr>entropy := snd (randomBytes 16 (entropy ?w1))\<rparr>) = (None, w3)"
        using set [of s1 "toHex (fst (randomBytes 16 (entropy w)))"]
        by (cases "kc_setPassword kc s1 KEY_NAME ACCOUNT (toHex (fst (randomBytes 16 (entropy w))))")
           (simp add: setPassword_def)
      have "init' env w3 c1 = Some y"
        using 1(2) inv sp by (simp add: att e c1 ensure_def Let_def case_prod_unfold)
      then have "env = env0 \<longrightarrow> \<not> ?inv c1" by (rule 1(1))
      with env inv c1 show False by simp
    qed
  qed
  with kc rs key show False by simp
qed

theorem init_never_returns_witness:
  "init (demo_env dropping_keychain) \<lparr>store = (), entropy = counting, calls = []\<rparr> (new_Crypto None) = None"
  using init_never_returns [of dropping_keychain "new_Crypto None" "demo_env dropping_keychain"
      "\<lparr>store = (), entropy = counting, calls = []\<rparr>"]
  by (simp add: dropping_keychain_def new_Crypto_def no_options_def demo_env_def)



text \<open>
  C9. \<open>noResetOnClose\<close>. On an instance that \<open>init\<close> has set up from options with
  \<open>noResetOnClose\<close> true and that holds a key \<open>k\<close>, \<open>close\<close> changes nothing: the key
  cell still holds \<open>k\<close>, and (with a cipher library that accepts \<open>k\<close> and whose decipher
  inverts its cipher) \<open>encrypt\<close> after \<open>close\<close> returns an envelope that \<open>decrypt\<close>
  after \<open>close\<close> turns back into the text.
\<close>

theorem close_keeps_key_when_noResetOnClose:
  assumes "init env w c0 = Some (Inr (), w', c)"
    and "opt_noResetOnClose (options c0)"
    and "this_key c = Some (Populated k)"
    and "iv = toHex (fst (randomBytes BYTE_COUNT_FOR_IV g))"
    and "createCipheriv lib k iv = None"
    and "createDecipheriv lib k iv = None"
    and "cipher_run lib k iv s = Inr (ct, tg)"
    and "decipher_run lib k iv tg (toHex ct) = Inr s"
  shows "noResetOnClose c \<and> close c = c \<and> this_key (close c) = Some (Populated k)
     \<and> (\<exists>env. encrypt lib g (close c) (Some s) = Inr (Some env)
              \<and> decrypt lib (close c) (Some env) = Inr (Some s))"
proof -
  from init_returns_post [OF assms(1)] assms(2) have flag: "noResetOnClose c"
    by (simp add: init_post_def)
  then have same: "close c = c" by (simp add: close_def)
  have "\<exists>env. encrypt lib g c (Some s) = Inr (Some env) \<and> decrypt lib c (Some env) = Inr (Some s)"
    using assms(3-8) roundtrip_populated [of c k lib g s ct tg] by simp
  with flag same assms(3) show ?thesis by simp
qed

theorem close_keeps_key_when_noResetOnClose_witness:
  "noResetOnClose (ready True) \<and> close (ready True) = ready True
     \<and> this_key (close (ready True)) = Some (Populated demo_key)
     \<and> (\<exists>env. encrypt demo_crypto counting (close (ready True)) (Some ''secret'') = Inr (Some env)
              \<and> decrypt demo_crypto (close (ready True)) (Some env) = Inr (Some ''secret''))"
proof -
  have opt: "opt_noResetOnClose (options (new_Crypto (Some (no_options\<lparr>opt_noResetOnClose := True\<rparr>)) :: string option Crypto))"
    by (simp add: new_Crypto_def)
  show ?thesis
    by (rule close_keeps_key_when_noResetOnClose
        [OF init_ready opt ready_key demo_nonce [symmetric] demo_accepts(1) demo_accepts(2)
            demo_seal demo_open])
qed

text \<open>
  C10. The field \<open>_key\<close> of every instance that comes from the constructor, through any
  number of \<open>init\<close> and \<open>close\<close> calls, is an object and never null; so the guard
  \<open>this._key == null\<close> of \<open>encrypt\<close> is false there and \<open>encrypt\<close> never fails with
  \<open>KeychainPasswordCreationError\<close>.
\<close>

theorem key_field_never_null:
  assumes "reachable env c"
  shows "this_key c \<noteq> None \<and> encrypt lib g c text \<noteq> Inl KeychainPasswordCreationError"
proof -
  from assms obtain cell where cell: "this_key c = Some cell"
    using reachable_key by fastforce
  then have "encrypt lib g c text \<noteq> Inl KeychainPasswordCreationError"
    by (auto simp: encrypt_def sb_value_def Let_def
        split: option.splits SecureBuffer.splits sum.splits prod.splits)
  with cell show ?thesis by simp
qed

theorem key_field_never_null_witness:
  "reachable (demo_env memory_keychain) (close (ready False))
   \<and> this_key (close (ready False)) = Some Empty
   \<and> encrypt demo_crypto counting (close (ready False)) (Some ''secret'') \<noteq> Inl KeychainPasswordCreationError"
proof -
  have r: "reachable (demo_env memory_keychain) (close (ready False))"
    by (rule after_close [OF reachable_ready])
  have "this_key (close (ready False)) = Some Empty"
    by (simp add: close_def ready_def clear_def)
  with r key_field_never_null [OF r, of demo_crypto counting "Some ''secret''"] show ?thesis by simp
qed

text \<open>
  C2. After \<open>close\<close>. The specification says that on an instance with \<open>noResetOnClose\<close>
  false every \<open>encrypt\<close> and \<open>decrypt\<close> after \<open>close\<close> fails with the missing-key error.
  The null check and the segment check come before any use of the key: on the closed
  instance a null input still gives undefined, and a text that does not split into two
  segments still fails with \<open>InvalidEncryptedFormatError\<close>.
\<close>

theorem closed_instance_counterexample:
  "\<not> noResetOnClose (ready False)
   \<and> encrypt demo_crypto counting (close (ready False)) None = Inr None
   \<and> decrypt demo_crypto (close (ready False)) None = Inr None
   \<and> decrypt demo_crypto (close (ready False)) (Some ''a:b:c'') = Inl InvalidEncryptedFormatError"
  by (simp add: ready_def close_def clear_def encrypt_def decrypt_def parse_envelope_def
      sb_value_def throw_message_def Let_def TAG_DELIMITER_def)

text \<open>
  C2, as amended. On an instance that \<open>init\<close> has run on, with \<open>noResetOnClose\<close> false,
  \<open>close\<close> empties the key cell. Afterwards a null input gives undefined, \<open>decrypt\<close> of a
  non-null text that does not split into two segments fails with
  \<open>InvalidEncryptedFormatError\<close>, and every other call (\<open>encrypt\<close> of a non-null text,
  \<open>decrypt\<close> of a text of two segments) fails with an error and returns no result.
\<close>

theorem encrypt_decrypt_after_close:
  assumes "\<not> noResetOnClose c" and "this_key c = Some cell" and "messages c"
  shows "this_key (close c) = Some Empty
     \<and> encrypt lib g (close c) None = Inr None
     \<and> decrypt lib (close c) None = Inr None
     \<and> (length (split_js TAG_DELIMITER t) \<noteq> 2
          \<longrightarrow> decrypt lib (close c) (Some t) = Inl InvalidEncryptedFormatError)
     \<and> (\<exists>e. encrypt lib g (close c) (Some t) = Inl e)
     \<and> (length (split_js TAG_DELIMITER t) = 2
          \<longrightarrow> (\<exists>e. decrypt lib (close c) (Some t) = Inl e))"
  using assms
  by (simp add: close_def clear_def encrypt_def decrypt_def parse_envelope_def sb_value_def
      throw_message_def Let_def)

theorem encrypt_decrypt_after_close_witness:
  "\<not> noResetOnClose (ready False) \<and> this_key (close (ready False)) = Some Empty
     \<and> decrypt demo_crypto (close (ready False)) (Some ''a:b:c'') = Inl InvalidEncryptedFormatError
     \<and> (\<exists>e. encrypt demo_crypto counting (close (ready False)) (Some ''a:b:c'') = Inl e)
     \<and> (\<exists>e. decrypt demo_crypto (close (ready False)) (Some ''000102030405736563726574:ab99'') = Inl e)"
proof -
  have a: "\<not> noResetOnClose (ready False)" by (simp add: ready_def)
  have two: "length (split_js TAG_DELIMITER ''000102030405736563726574:ab99'') = 2"
    by (simp add: TAG_DELIMITER_def)
  have three: "length (split_js TAG_DELIMITER ''a:b:c'') = 3"
    by (simp add: TAG_DELIMITER_def)
  from encrypt_decrypt_after_close [OF a ready_key ready_messages, of demo_crypto counting
      "''a:b:c''"]
    encrypt_decrypt_after_close [OF a ready_key ready_messages, of demo_crypto counting
      "''000102030405736563726574:ab99''"]
    a two three show ?thesis by simp
qed


section \<open>Tampered envelopes\<close>

lemma split_js_prefix:
  "d \<notin> set xs \<Longrightarrow> split_js d (xs @ ys) = (xs @ hd (split_js d ys)) # tl (split_js d ys)"
proof (induction xs)
  case Nil
  show ?case using split_js_nonempty [of d ys] by simp
next
  case (Cons x xs)
  then show ?case by auto
qed

lemma parse_envelope_two:
  assumes "length iv = 12" and "split_js TAG_DELIMITER t = [iv @ sec, tag]"
  shows "parse_envelope t = Some (tag, iv, sec)"
  using assms
  by (simp add: parse_envelope_def Let_def BYTE_COUNT_FOR_IV_def substring_take substring_drop)

lemma demo_reject:
  "decipher_run demo_crypto demo_key ''000102030405'' (fromHex ''bb99'') ''736563726574''
     = Inl (JsError ''Error'')"
  by code_simp

text \<open>
  C4. Tamper detection. The specification says that flipping any bit of the ciphertext or
  tag portion of a valid envelope makes \<open>decrypt\<close> fail with the decryption error. Flipping
  bit 5 of the hexadecimal letter \<open>a\<close> of the tag gives \<open>A\<close>, which \<open>Buffer.from(tag, 'hex')\<close>
  decodes to the same byte: \<open>decrypt\<close> returns the original text. Flipping bit 3 of a
  \<open>2\<close> of the ciphertext gives the delimiter: \<open>decrypt\<close> fails with
  \<open>InvalidEncryptedFormatError\<close>.
\<close>

theorem tamper_counterexample:
  "encrypt demo_crypto counting (ready False) (Some ''secret'')
       = Inr (Some ''000102030405736563726574:ab99'')
   \<and> xor (of_char (CHR ''a'') :: byte) 0x20 = of_char (CHR ''A'')
   \<and> decrypt demo_crypto (ready False) (Some ''000102030405736563726574:Ab99'')
       = Inr (Some ''secret'')
   \<and> xor (of_char (CHR ''2'') :: byte) 0x08 = of_char (CHR '':'')
   \<and> decrypt demo_crypto (ready False) (Some ''0001020304057365637:6574:ab99'')
       = Inl InvalidEncryptedFormatError"
  by code_simp

text \<open>
  C4, as amended. Let \<open>encrypt\<close> have produced the envelope of a text \<open>s\<close> on an instance
  that \<open>init\<close> has run on, and replace everything after its nonce (the ciphertext, the
  delimiter, the tag) by any string \<open>rest\<close>. Suppose the cipher library is authentic at the
  modified envelope: under the key and the nonce it releases no text other than \<open>s\<close> for
  the modified tag and ciphertext. Then \<open>decrypt\<close> of the modified envelope never returns
  a text other than \<open>s\<close>: it fails with \<open>InvalidEncryptedFormatError\<close> when the modified
  envelope no longer has two segments, and otherwise fails with \<open>AuthDecryptError\<close> or
  returns \<open>s\<close> itself. Whatever the library, a modified tag that holds no delimiter and
  decodes to the bytes of the original tag gives the outcome of the unmodified envelope.
\<close>

theorem tampered_envelope_never_altered:
  assumes key: "this_key c = Some (Populated k)"
    and msg: "messages c"
    and iv: "iv = toHex (fst (randomBytes BYTE_COUNT_FOR_IV g))"
    and cok: "createCipheriv lib k iv = None"
    and seal: "cipher_run lib k iv s = Inr (ct, tg)"
    and dok: "createDecipheriv lib k iv = None"
    and auth: "\<And>tag' sec' p. split_js TAG_DELIMITER (iv @ rest) = [iv @ sec', tag']
                 \<Longrightarrow> decipher_run lib k iv (fromHex tag') sec' = Inr p \<Longrightarrow> p = s"
  shows "encrypt lib g c (Some s) = Inr (Some (iv @ toHex ct @ TAG_DELIMITER # toHex tg))
     \<and> (\<forall>p. decrypt lib c (Some (iv @ rest)) = Inr (Some p) \<longrightarrow> p = s)
     \<and> (length (split_js TAG_DELIMITER (iv @ rest)) \<noteq> 2
          \<longrightarrow> decrypt lib c (Some (iv @ rest)) = Inl InvalidEncryptedFormatError)
     \<and> (length (split_js TAG_DELIMITER (iv @ rest)) = 2
          \<longrightarrow> decrypt lib c (Some (iv @ rest)) = Inr (Some s)
              \<or> (\<exists>e. decrypt lib c (Some (iv @ rest)) = Inl (AuthDecryptError e)))
     \<and> (\<forall>tag'. TAG_DELIMITER \<notin> set tag' \<and> fromHex tag' = tg
          \<longrightarrow> decrypt lib c (Some (iv @ toHex ct @ TAG_DELIMITER # tag'))
              = decrypt lib c (Some (iv @ toHex ct @ TAG_DELIMITER # toHex tg)))"
proof -
  let ?env' = "iv @ rest"
  have len: "length iv = 12" and nd: "TAG_DELIMITER \<notin> set iv"
    using iv by (simp_all add: length_nonce toHex_no_delim)
  have enc: "encrypt lib g c (Some s) = Inr (Some (iv @ toHex ct @ TAG_DELIMITER # toHex tg))"
    using encrypt_populated [of c k lib g s ct tg] key cok seal iv by simp
  have bad: "decrypt lib c (Some ?env') = Inl InvalidEncryptedFormatError"
    if "length (split_js TAG_DELIMITER ?env') \<noteq> 2"
    using that msg by (simp add: decrypt_def parse_envelope_def throw_message_def Let_def)
  have good: "decrypt lib c (Some ?env') = Inr (Some s)
      \<or> (\<exists>e. decrypt lib c (Some ?env') = Inl (AuthDecryptError e))"
    if two: "length (split_js TAG_DELIMITER ?env') = 2"
  proof -
    from split_js_prefix [OF nd, of rest]
    have pre: "split_js TAG_DELIMITER ?env'
        = (iv @ hd (split_js TAG_DELIMITER rest)) # tl (split_js TAG_DELIMITER rest)" .
    with two obtain tag' where tl: "tl (split_js TAG_DELIMITER rest) = [tag']"
      by (cases "tl (split_js TAG_DELIMITER rest)") auto
    let ?sec = "hd (split_js TAG_DELIMITER rest)"
    have sp: "split_js TAG_DELIMITER ?env' = [iv @ ?sec, tag']" using pre tl by simp
    have parse: "parse_envelope ?env' = Some (tag', iv, ?sec)"
      using len sp by (rule parse_envelope_two)
    note d = decrypt_populated [OF key parse dok]
    show ?thesis
    proof (cases "decipher_run lib k iv (fromHex tag') ?sec")
      case (Inl e)
      with d msg show ?thesis by (simp add: throw_message_def)
    next
      case (Inr p)
      with auth [OF sp] have "p = s" by simp
      with d Inr show ?thesis by simp
    qed
  qed
  have never: "p = s" if "decrypt lib c (Some ?env') = Inr (Some p)" for p
  proof (cases "length (split_js TAG_DELIMITER ?env') = 2")
    case True
    from good [OF True] that show ?thesis by auto
  next
    case False
    from bad [OF False] that show ?thesis by simp
  qed
  have same: "decrypt lib c (Some (iv @ toHex ct @ TAG_DELIMITER # tag'))
      = decrypt lib c (Some (iv @ toHex ct @ TAG_DELIMITER # toHex tg))"
    if "TAG_DELIMITER \<notin> set tag'" and "fromHex tag' = tg" for tag'
  proof -
    have p1: "parse_envelope (iv @ toHex ct @ TAG_DELIMITER # tag') = Some (tag', iv, toHex ct)"
      using len nd _ that(1) by (rule parse_envelope_parts) (rule toHex_no_delim)
    have p2: "parse_envelope (iv @ toHex ct @ TAG_DELIMITER # toHex tg) = Some (toHex tg, iv, toHex ct)"
      using len nd by (rule parse_envelope_parts) (rule toHex_no_delim)+
    show ?thesis
      using decrypt_populated [OF key p1 dok] decrypt_populated [OF key p2 dok] that(2)
      by (simp add: fromHex_toHex)
  qed
  from enc never bad good same show ?thesis by blast
qed

theorem tampered_envelope_never_altered_witness:
  "encrypt demo_crypto counting (ready False) (Some ''secret'')
       = Inr (Some ''000102030405736563726574:ab99'')
   \<and> decrypt demo_crypto (ready False) (Some ''000102030405736563726574:bb99'')
       \<noteq> Inr (Some ''secret'')
   \<and> (\<exists>e. decrypt demo_crypto (ready False) (Some ''000102030405736563726574:bb99'')
           = Inl (AuthDecryptError e))
   \<and> decrypt demo_crypto (ready False) (Some ''000102030405736563726574:Ab99'')
       = decrypt demo_crypto (ready False) (Some ''000102030405736563726574:ab99'')"
proof -
  have auth: "p = ''secret''"
    if "split_js TAG_DELIMITER (''000102030405'' @ ''736563726574:bb99'') = [''000102030405'' @ sec', tag']"
      and "decipher_run demo_crypto demo_key ''000102030405'' (fromHex tag') sec' = Inr p"
    for tag' sec' p
  proof -
    from that(1) have "sec' = ''736563726574''" and "tag' = ''bb99''"
      by (simp_all add: TAG_DELIMITER_def)
    with that(2) demo_reject show ?thesis by simp
  qed
  have two: "length (split_js TAG_DELIMITER (''000102030405'' @ ''736563726574:bb99'')) = 2"
    by (simp add: TAG_DELIMITER_def)
  have rej: "decrypt demo_crypto (ready False) (Some ''000102030405736563726574:bb99'')
       \<noteq> Inr (Some ''secret'')"
    by code_simp
  have flip: "TAG_DELIMITER \<notin> set ''Ab99'' \<and> fromHex ''Ab99'' = [0xAB, 0x99]"
    by code_simp
  have "encrypt demo_crypto counting (ready False) (Some ''secret'')
        = Inr (Some (''000102030405'' @ toHex [0x73, 0x65, 0x63, 0x72, 0x65, 0x74] @ TAG_DELIMITER # toHex [0xAB, 0x99]))
     \<and> (\<forall>p. decrypt demo_crypto (ready False) (Some (''000102030405'' @ ''736563726574:bb99''))
            = Inr (Some p) \<longrightarrow> p = ''secret'')
     \<and> (length (split_js TAG_DELIMITER (''000102030405'' @ ''736563726574:bb99'')) \<noteq> 2
          \<longrightarrow> decrypt demo_crypto (ready False) (Some (''000102030405'' @ ''736563726574:bb99''))
              = Inl InvalidEncryptedFormatError)
     \<and> (length (split_js TAG_DELIMITER (''000102030405'' @ ''736563726574:bb99'')) = 2
          \<longrightarrow> decrypt demo_crypto (ready False) (Some (''000102030405'' @ ''736563726574:bb99''))
              = Inr (Some ''secret'')
              \<or> (\<exists>e. decrypt demo_crypto (ready False) (Some (''000102030405'' @ ''736563726574:bb99''))
                    = Inl (AuthDecryptError e)))
     \<and> (\<forall>tag'. TAG_DELIMITER \<notin> set tag' \<and> fromHex tag' = [0xAB, 0x99]
          \<longrightarrow> decrypt demo_crypto (ready False) (Some (''000102030405'' @ toHex [0x73, 0x65, 0x63, 0x72, 0x65, 0x74] @ TAG_DELIMITER # tag'))
              = decrypt demo_crypto (ready False) (Some (''000102030405'' @ toHex [0x73, 0x65, 0x63, 0x72, 0x65, 0x74] @ TAG_DELIMITER # toHex [0xAB, 0x99])))"
    by (rule tampered_envelope_never_altered [OF ready_key ready_messages demo_nonce [symmetric]
          demo_accepts(1) demo_seal demo_accepts(2)])
       (erule auth, assumption)
  then have alt: "length (split_js TAG_DELIMITER (''000102030405'' @ ''736563726574:bb99'')) = 2
          \<longrightarrow> decrypt demo_crypto (ready False) (Some (''000102030405'' @ ''736563726574:bb99'')) = Inr (Some ''secret'')
              \<or> (\<exists>e. decrypt demo_crypto (ready False) (Some (''000102030405'' @ ''736563726574:bb99''))
                    = Inl (AuthDecryptError e))"
    and same: "\<forall>tag'. TAG_DELIMITER \<notin> set tag' \<and> fromHex tag' = [0xAB, 0x99]
          \<longrightarrow> decrypt demo_crypto (ready False) (Some (''000102030405'' @ toHex [0x73, 0x65, 0x63, 0x72, 0x65, 0x74] @ TAG_DELIMITER # tag'))
              = decrypt demo_crypto (ready False) (Some (''000102030405'' @ toHex [0x73, 0x65, 0x63, 0x72, 0x65, 0x74] @ TAG_DELIMITER # toHex [0xAB, 0x99]))"
    by blast+
  have hexes: "toHex [0x73, 0x65, 0x63, 0x72, 0x65, 0x74 :: byte] = ''736563726574''"
      "toHex [0xAB, 0x99 :: byte] = ''ab99''"
    by code_simp+
  from alt two rej have e: "\<exists>e. decrypt demo_crypto (ready False) (Some ''000102030405736563726574:bb99'')
           = Inl (AuthDecryptError e)"
    by simp
  from same flip have "decrypt demo_crypto (ready False) (Some (''000102030405'' @ toHex [0x73, 0x65, 0x63, 0x72, 0x65, 0x74] @ TAG_DELIMITER # ''Ab99''))
      = decrypt demo_crypto (ready False) (Some (''000102030405'' @ toHex [0x73, 0x65, 0x63, 0x72, 0x65, 0x74] @ TAG_DELIMITER # toHex [0xAB, 0x99]))"
    by blast
  then have f: "decrypt demo_crypto (ready False) (Some ''000102030405736563726574:Ab99'')
       = decrypt demo_crypto (ready False) (Some ''000102030405736563726574:ab99'')"
    unfolding hexes by (simp add: TAG_DELIMITER_def)
  from demo_encrypt rej e f show ?thesis by blast
qed

end
